theory Spec2Isabelle
  imports Complex_Main "HOL-Library.Word"
begin

section \<open>Grayscale converter with bit-depth quantization\<close>

text \<open>
  A shallow embedding of \<^verbatim>\<open>src/Greyscale_Inverter/src/main.py\<close>: the methods
  \<^verbatim>\<open>ImageConverter.load_image\<close> and \<^verbatim>\<open>ImageConverter.update_grayscale\<close>.

  Modelling decisions.
  \<^item> A NumPy array is a record of its shape and its elements in row-major order.
  \<^item> A \<^verbatim>\<open>np.uint8\<close> is an \<open>8 word\<close>.
  \<^item> The \<^verbatim>\<open>float64\<close> values of the quantization are rationals, and the rounding
    error of \<^verbatim>\<open>float64\<close> is left open where it can change a result.  The
    \<^verbatim>\<open>float64\<close> value of \<^verbatim>\<open>gray / 255 * (levels - 1)\<close> differs from the exact
    value by a relative error of about \<open>10\<^sup>-\<^sup>1\<^sup>5\<close>, whatever the order in which
    \<^verbatim>\<open>np.dot\<close> adds the three products.  So \<^verbatim>\<open>np.round\<close> gives the integer
    nearest to the exact value, unless the exact value is an integer plus one half:
    there the \<^verbatim>\<open>float64\<close> value lies just below the half, just above it or on
    it, and the step is the lower or the upper neighbour.  For the pixel (0, 204, 68)
    at two bits the exact value is 1.5 and the \<^verbatim>\<open>float64\<close> value is below it; for
    (218, 58, 248) at one bit the exact value is 0.5 and the \<^verbatim>\<open>float64\<close> value is
    above it.  The model takes the side as a parameter, a truth value for each pixel,
    and every property is proved for both sides.  The product
    \<^verbatim>\<open>step * (255 / (levels - 1))\<close> loses its fraction to the same byte in both
    arithmetics for every step and every bit depth from 1 to 8; for larger bit depths
    the bytes of the model are those of exact arithmetic.
  \<^item> An exception is a value of type \<open>error\<close>; a method that may raise returns
    \<open>error + 'a\<close>.
  \<^item> Widget geometry (\<^verbatim>\<open>adjust_image_labels\<close>) is not part of the state.
\<close>

subsection \<open>Arrays\<close>

type_synonym uint8 = "8 word"

datatype error = ValueError | ZeroDivisionError | AttributeError

record 'a ndarray =
  shape :: "nat list"
  data :: "'a list"

text \<open>\<^verbatim>\<open>ptr.setsize(n)\<close>: the pointer exposes the first \<open>n\<close> bytes of the memory
  behind it.\<close>

definition setsize :: "nat \<Rightarrow> uint8 list \<Rightarrow> uint8 list" where
  "setsize n mem = take n mem"

text \<open>\<^verbatim>\<open>np.frombuffer(ptr, np.uint8)\<close>: a one-dimensional array over the buffer.\<close>

definition frombuffer :: "uint8 list \<Rightarrow> uint8 ndarray" where
  "frombuffer buf = \<lparr>shape = [length buf], data = buf\<rparr>"

text \<open>\<^verbatim>\<open>arr.reshape(shp)\<close>: the same elements under a new shape; NumPy raises
  \<^verbatim>\<open>ValueError\<close> when the sizes differ.\<close>

definition reshape :: "'a ndarray \<Rightarrow> nat list \<Rightarrow> error + 'a ndarray" where
  "reshape arr shp =
     (if prod_list shp = length (data arr) then Inr \<lparr>shape = shp, data = data arr\<rparr>
      else Inl ValueError)"

text \<open>\<^verbatim>\<open>arr[:, :n]\<close> on a two-dimensional array and \<^verbatim>\<open>arr[..., :n]\<close>: the
  first \<open>n\<close> entries along the last axis (all of them when the axis is shorter).
  Element \<open>j\<close> of row \<open>r\<close> of the result is element \<open>j\<close> of row \<open>r\<close> of the array.\<close>

definition slice_last :: "'a ndarray \<Rightarrow> nat \<Rightarrow> 'a ndarray" where
  "slice_last arr n =
     (let k = last (shape arr);
          m = min n k;
          rows = prod_list (butlast (shape arr))
      in \<lparr>shape = butlast (shape arr) @ [m],
          data = map (\<lambda>i. data arr ! ((i div m) * k + i mod m)) [0..<rows * m]\<rparr>)"

subsection \<open>Unpacking the image buffer (lines 137 to 158)\<close>

text \<open>The pixel formats of \<^verbatim>\<open>QImage\<close> that the method tells apart; every other
  format is \<open>Format_Other\<close>.\<close>

datatype qformat = Format_RGB32 | Format_ARGB32 | Format_ARGB32_Premultiplied
  | Format_RGB888 | Format_Other

record qimage =
  img_width :: nat
  img_height :: nat
  img_bytesPerLine :: nat
  img_format :: qformat
  img_bits :: "uint8 list"

text \<open>\<^verbatim>\<open>img.byteCount()\<close> is \<^verbatim>\<open>QImage\<close>'s own: the rows times the bytes per
  row.\<close>

definition byteCount :: "qimage \<Rightarrow> nat" where
  "byteCount img = img_height img * img_bytesPerLine img"

text \<open>\<^verbatim>\<open>img.isNull()\<close>: an image of width 0 or of height 0 is \<^verbatim>\<open>QImage\<close>'s null
  image, which holds no pixel memory.\<close>

definition isNull :: "qimage \<Rightarrow> bool" where
  "isNull img = (img_width img = 0 \<or> img_height img = 0)"

text \<open>\<^verbatim>\<open>img.bits()\<close>: the pixel memory, \<^verbatim>\<open>None\<close> for the null image.\<close>

definition qimage_bits :: "qimage \<Rightarrow> uint8 list option" where
  "qimage_bits img = (if isNull img then None else Some (img_bits img))"

definition channels_of :: "qformat \<Rightarrow> nat" where
  "channels_of fmt =
     (if fmt = Format_RGB32 \<or> fmt = Format_ARGB32 \<or> fmt = Format_ARGB32_Premultiplied
      then 4 else 3)"

text \<open>The array operations of lines 137 to 158, on the pixel memory of an image.
  \<open>update_grayscale\<close> below reaches them only when \<^verbatim>\<open>img.bits()\<close> is not
  \<^verbatim>\<open>None\<close>.\<close>

definition unpack :: "qimage \<Rightarrow> error + uint8 ndarray" where
  "unpack img =
     (let width = img_width img;
          height = img_height img;
          bytes_per_line = img_bytesPerLine img;
          ptr = setsize (byteCount img) (img_bits img)
      in case reshape (frombuffer ptr) [height, bytes_per_line] of
           Inl e \<Rightarrow> Inl e
         | Inr arr \<Rightarrow>
             (let channels = channels_of (img_format img)
              in case reshape (slice_last arr (width * channels))
                        [height, width, channels] of
                   Inl e \<Rightarrow> Inl e
                 | Inr arr' \<Rightarrow> Inr (if channels = 4 then slice_last arr' 3 else arr')))"

subsection \<open>Grayscale conversion and quantization (lines 160 to 166)\<close>

text \<open>\<^verbatim>\<open>np.round\<close> of the \<^verbatim>\<open>float64\<close> value whose exact value is \<open>x\<close>: the
  nearest integer.  When \<open>x\<close> is an integer plus one half, the rounding error of the
  \<^verbatim>\<open>float64\<close> value decides: the upper neighbour when \<open>up\<close> holds, the lower one
  otherwise.\<close>

definition np_round :: "bool \<Rightarrow> rat \<Rightarrow> int" where
  "np_round up x =
     (let f = \<lfloor>x\<rfloor>; d = x - of_int f
      in if d < 1 / 2 then f
         else if 1 / 2 < d then f + 1
         else if up then f + 1 else f)"

text \<open>\<^verbatim>\<open>.astype(np.uint8)\<close>: the fraction is cut off (towards zero); a value
  outside 0 to 255 wraps around.\<close>

definition astype_uint8 :: "rat \<Rightarrow> uint8" where
  "astype_uint8 x = word_of_int (if 0 \<le> x then \<lfloor>x\<rfloor> else \<lceil>x\<rceil>)"

text \<open>\<^verbatim>\<open>2 ** bits\<close> on a Python integer: a float for a negative exponent.\<close>

definition py_pow2 :: "int \<Rightarrow> rat" where
  "py_pow2 bits = (if 0 \<le> bits then 2 ^ nat bits else 1 / 2 ^ nat (- bits))"

text \<open>The conversion of a byte to \<^verbatim>\<open>float64\<close> that \<^verbatim>\<open>np.dot\<close> applies to its
  first argument.\<close>

definition float_of :: "uint8 \<Rightarrow> rat" where
  "float_of v = of_nat (unat v)"

text \<open>The exact value of one entry of
  \<^verbatim>\<open>np.dot(arr[..., :3], [0.299, 0.587, 0.114])\<close>: the first three bytes of a pixel
  with the three weights, in the order in which the bytes lie in memory.  The
  \<^verbatim>\<open>float64\<close> entry differs from it by rounding error, which only \<open>np_round\<close>
  can see.\<close>

definition luma :: "uint8 \<Rightarrow> uint8 \<Rightarrow> uint8 \<Rightarrow> rat" where
  "luma r g b =
     float_of r * (299 / 1000) + float_of g * (587 / 1000) + float_of b * (114 / 1000)"

text \<open>One entry of
  \<^verbatim>\<open>(np.round(gray / 255 * (levels - 1)) * (255 / (levels - 1))).astype(np.uint8)\<close>,
  with \<open>up\<close> the side on which a tie of this entry falls.\<close>

definition quantize_step :: "bool \<Rightarrow> rat \<Rightarrow> rat \<Rightarrow> int" where
  "quantize_step up levels gray = np_round up (gray / 255 * (levels - 1))"

definition quantize_value :: "bool \<Rightarrow> rat \<Rightarrow> rat \<Rightarrow> uint8" where
  "quantize_value up levels gray =
     astype_uint8 (of_int (quantize_step up levels gray) * (255 / (levels - 1)))"

definition quantize_pixel :: "bool \<Rightarrow> int \<Rightarrow> uint8 \<Rightarrow> uint8 \<Rightarrow> uint8 \<Rightarrow> uint8" where
  "quantize_pixel up bits r g b = quantize_value up (py_pow2 bits) (luma r g b)"

text \<open>The whole array.  \<^verbatim>\<open>np.dot\<close> raises \<^verbatim>\<open>ValueError\<close> unless the last axis
  has three entries; \<^verbatim>\<open>255 / (levels - 1)\<close> is a division of Python numbers and
  raises \<^verbatim>\<open>ZeroDivisionError\<close> when \<open>levels = 1\<close>.  \<open>ups i\<close> is the side of
  pixel \<open>i\<close>.\<close>

definition grayscale_quantize ::
  "(nat \<Rightarrow> bool) \<Rightarrow> int \<Rightarrow> uint8 ndarray \<Rightarrow> error + uint8 ndarray" where
  "grayscale_quantize ups bits arr =
     (let rgb = slice_last arr 3
      in if last (shape rgb) \<noteq> 3 then Inl ValueError
         else if py_pow2 bits - 1 = 0 then Inl ZeroDivisionError
         else Inr \<lparr>shape = butlast (shape rgb),
                   data = map (\<lambda>i. quantize_pixel (ups i) bits (data rgb ! (3 * i))
                                 (data rgb ! (3 * i + 1)) (data rgb ! (3 * i + 2)))
                            [0..<prod_list (butlast (shape rgb))]\<rparr>)"

subsection \<open>The application state\<close>

record state =
  original_image :: "qimage option"
  gray_image :: "uint8 ndarray option"
  file_path :: "string option"
  bits :: int
  image_label :: "qimage option"
  gray_label :: "uint8 ndarray option"
  warnings :: "string list"

text \<open>\<^verbatim>\<open>update_grayscale\<close>.  On the null image \<^verbatim>\<open>img.bits()\<close> is \<^verbatim>\<open>None\<close> and
  \<^verbatim>\<open>ptr.setsize\<close> on line 142 raises \<^verbatim>\<open>AttributeError\<close>.\<close>

definition update_grayscale :: "(nat \<Rightarrow> bool) \<Rightarrow> state \<Rightarrow> error + state" where
  "update_grayscale ups st =
     (case original_image st of
        None \<Rightarrow> Inr st
      | Some img \<Rightarrow>
          (case qimage_bits img of
             None \<Rightarrow> Inl AttributeError
           | Some ptr \<Rightarrow>
               (case unpack img of
                  Inl e \<Rightarrow> Inl e
                | Inr arr \<Rightarrow>
                    (case grayscale_quantize ups (bits st) arr of
                       Inl e \<Rightarrow> Inl e
                     | Inr gray_quant \<Rightarrow>
                         Inr (st\<lparr>image_label := Some img, gray_label := Some gray_quant,
                                 gray_image := Some gray_quant\<rparr>)))))"

text \<open>\<^verbatim>\<open>load_image\<close>.  The file dialog and the decoder \<^verbatim>\<open>QImage(file_path)\<close>
  are the environment: \<open>chosen\<close> is the path the dialog returns (empty when it is
  cancelled) and \<open>decode\<close> gives the decoded image, \<open>None\<close> when the file
  cannot be decoded.  \<^verbatim>\<open>img.isNull()\<close> holds then, and also for a decoded image of
  width 0 or height 0.  An empty \<open>path\<close> stands for the argument left out.\<close>

definition load_image ::
  "(nat \<Rightarrow> bool) \<Rightarrow> (string \<Rightarrow> qimage option) \<Rightarrow> string \<Rightarrow> string \<Rightarrow> state
     \<Rightarrow> error + state" where
  "load_image ups decode chosen path st =
     (let p = (if path = [] then chosen else path)
      in if p = [] then Inr st
         else (case decode p of
                 None \<Rightarrow> Inr (st\<lparr>warnings := warnings st @ [''Failed to load image.'']\<rparr>)
               | Some img \<Rightarrow>
                   if isNull img
                   then Inr (st\<lparr>warnings := warnings st @ [''Failed to load image.'']\<rparr>)
                   else update_grayscale ups
                          (st\<lparr>file_path := Some p, original_image := Some img\<rparr>)))"

subsection \<open>The formulas of the specification\<close>

text \<open>The quantizer as the specification words it, for the comparison with
  \<open>quantize_pixel\<close>: rounding to the nearest integer with a tie to the even one, the
  luma of a pixel, the number of levels, the step, and the byte with the rescaled
  value rounded and clamped.\<close>

definition round_half_even :: "rat \<Rightarrow> int" where
  "round_half_even x =
     (if x - of_int \<lfloor>x\<rfloor> < 1 / 2 then \<lfloor>x\<rfloor>
      else if 1 / 2 < x - of_int \<lfloor>x\<rfloor> then \<lfloor>x\<rfloor> + 1
      else if even \<lfloor>x\<rfloor> then \<lfloor>x\<rfloor> else \<lfloor>x\<rfloor> + 1)"

definition spec_luma :: "nat \<Rightarrow> nat \<Rightarrow> nat \<Rightarrow> rat" where
  "spec_luma R G B = 299 / 1000 * of_nat R + 587 / 1000 * of_nat G + 114 / 1000 * of_nat B"

definition spec_levels :: "int \<Rightarrow> rat" where
  "spec_levels depth = 2 ^ nat depth"

definition spec_step :: "int \<Rightarrow> nat \<Rightarrow> nat \<Rightarrow> nat \<Rightarrow> int" where
  "spec_step depth R G B = round_half_even (spec_luma R G B / 255 * (spec_levels depth - 1))"

definition spec_quantize_rounded :: "int \<Rightarrow> nat \<Rightarrow> nat \<Rightarrow> nat \<Rightarrow> int" where
  "spec_quantize_rounded depth R G B =
     max 0 (min 255
       (round_half_even (of_int (spec_step depth R G B) * 255 / (spec_levels depth - 1))))"

text \<open>The same with what the code does in two places: the step is rounded half to even
  except where the exact value is an integer plus one half, where \<open>up\<close> gives the
  side; and the fraction of the rescaled value is cut off.\<close>

definition spec_step_f64 :: "bool \<Rightarrow> int \<Rightarrow> nat \<Rightarrow> nat \<Rightarrow> nat \<Rightarrow> int" where
  "spec_step_f64 up depth R G B =
     (let x = spec_luma R G B / 255 * (spec_levels depth - 1)
      in if x - of_int \<lfloor>x\<rfloor> = 1 / 2 then (if up then \<lfloor>x\<rfloor> + 1 else \<lfloor>x\<rfloor>)
         else round_half_even x)"

definition spec_quantize_truncated :: "bool \<Rightarrow> int \<Rightarrow> nat \<Rightarrow> nat \<Rightarrow> nat \<Rightarrow> int" where
  "spec_quantize_truncated up depth R G B =
     \<lfloor>of_int (spec_step_f64 up depth R G B) * 255 / (spec_levels depth - 1)\<rfloor>"

text \<open>The distance of the output byte from the exact luma.\<close>

definition quant_error :: "bool \<Rightarrow> int \<Rightarrow> uint8 \<Rightarrow> uint8 \<Rightarrow> uint8 \<Rightarrow> rat" where
  "quant_error up depth r g b = \<bar>float_of (quantize_pixel up depth r g b) - luma r g b\<bar>"


subsection \<open>A state for the examples\<close>

text \<open>The state that \<^verbatim>\<open>__init__\<close> sets up (lines 88 to 91), the state after an image
  of one pixel was loaded from \<^verbatim>\<open>good.png\<close>, and an image of width 0.\<close>

definition initial_state :: state where
  "initial_state =
     \<lparr>original_image = None, gray_image = None, file_path = None, bits = 8,
      image_label = None, gray_label = None, warnings = []\<rparr>"

definition loaded_state :: state where
  "loaded_state =
     \<lparr>original_image = Some \<lparr>img_width = 1, img_height = 1, img_bytesPerLine = 4,
                                  img_format = Format_RGB32, img_bits = [10, 20, 30, 255]\<rparr>,
      gray_image = Some \<lparr>shape = [1, 1], data = [18]\<rparr>,
      file_path = Some ''good.png'', bits = 8,
      image_label = Some \<lparr>img_width = 1, img_height = 1, img_bytesPerLine = 4,
                               img_format = Format_RGB32, img_bits = [10, 20, 30, 255]\<rparr>,
      gray_label = Some \<lparr>shape = [1, 1], data = [18]\<rparr>, warnings = []\<rparr>"

definition empty_image :: qimage where
  "empty_image =
     \<lparr>img_width = 0, img_height = 2, img_bytesPerLine = 4, img_format = Format_RGB32,
      img_bits = [1, 2, 3, 4, 5, 6, 7, 8]\<rparr>"

section \<open>Properties\<close>

subsection \<open>Rounding\<close>

lemma np_round_half_even:
  "np_round up x
     = (if x - of_int \<lfloor>x\<rfloor> = 1 / 2 then (if up then \<lfloor>x\<rfloor> + 1 else \<lfloor>x\<rfloor>)
        else round_half_even x)"
  by (simp add: np_round_def round_half_even_def Let_def)

lemma np_round_cases: "np_round up x = \<lfloor>x\<rfloor> \<or> np_round up x = \<lfloor>x\<rfloor> + 1"
  by (simp add: np_round_def Let_def)

lemma np_round_dist: "\<bar>of_int (np_round up x) - x\<bar> \<le> 1 / 2"
proof -
  have "of_int \<lfloor>x\<rfloor> \<le> x" "x < of_int \<lfloor>x\<rfloor> + 1"
    by linarith+
  then show ?thesis
    by (auto simp: np_round_def Let_def)
qed

lemma np_round_eqI:
  assumes "of_int k - 1 / 2 < x" "x < of_int k + 1 / 2"
  shows "np_round up x = k"
proof -
  have "\<bar>of_int (np_round up x) - x\<bar> \<le> 1 / 2"
    by (rule np_round_dist)
  with assms have "\<bar>(of_int (np_round up x) :: rat) - of_int k\<bar> < 1"
    by linarith
  then have "\<bar>np_round up x - k\<bar> < 1"
    by (metis of_int_1 of_int_abs of_int_diff of_int_less_iff)
  then show ?thesis by linarith
qed

lemma np_round_of_int: "np_round up (of_int k) = k"
  by (rule np_round_eqI) simp_all

lemma np_round_closest: "\<bar>of_int (np_round up x) - x\<bar> \<le> \<bar>of_int n - x\<bar>"
proof -
  have fl: "of_int \<lfloor>x\<rfloor> \<le> x" "x < of_int \<lfloor>x\<rfloor> + 1"
    by linarith+
  consider "n \<le> \<lfloor>x\<rfloor>" | "\<lfloor>x\<rfloor> + 1 \<le> n" by linarith
  then show ?thesis
  proof cases
    case 1
    then have "(of_int n :: rat) \<le> of_int \<lfloor>x\<rfloor>" by simp
    with fl show ?thesis by (auto simp: np_round_def Let_def)
  next
    case 2
    then have "(of_int \<lfloor>x\<rfloor> :: rat) + 1 \<le> of_int n"
      by (metis of_int_1 of_int_add of_int_le_iff)
    with fl show ?thesis by (auto simp: np_round_def Let_def)
  qed
qed

lemma np_round_lower: "of_int a \<le> x \<Longrightarrow> a \<le> np_round up x"
proof -
  assume a: "of_int a \<le> x"
  have "\<bar>of_int (np_round up x) - x\<bar> \<le> 1 / 2" by (rule np_round_dist)
  with a have "(of_int a :: rat) - 1 < of_int (np_round up x)" by linarith
  then have "a - 1 < np_round up x"
    by (metis of_int_1 of_int_diff of_int_less_iff)
  then show ?thesis by linarith
qed

lemma np_round_upper: "x \<le> of_int b \<Longrightarrow> np_round up x \<le> b"
proof -
  assume b: "x \<le> of_int b"
  have "\<bar>of_int (np_round up x) - x\<bar> \<le> 1 / 2" by (rule np_round_dist)
  with b have "of_int (np_round up x) < (of_int b :: rat) + 1" by linarith
  then have "np_round up x < b + 1"
    by (metis of_int_1 of_int_add of_int_less_iff)
  then show ?thesis by linarith
qed

subsection \<open>Bytes, luma and levels\<close>

lemma float_of_nonneg: "0 \<le> float_of v"
  by (simp only: float_of_def of_nat_0_le_iff)

lemma float_of_le: "float_of v \<le> 255"
proof -
  have "unat v < 2 ^ LENGTH(8)" by (rule unsigned_less)
  then have "unat v \<le> 255" by simp
  then have "(of_nat (unat v) :: rat) \<le> of_nat 255" by (simp only: of_nat_le_iff)
  then show ?thesis by (simp add: float_of_def)
qed

lemma float_of_uint: "float_of v = of_int (uint v)"
  by (simp add: float_of_def)

lemma luma_nonneg: "0 \<le> luma r g b"
  using float_of_nonneg [of r] float_of_nonneg [of g] float_of_nonneg [of b]
  unfolding luma_def by linarith

lemma luma_le: "luma r g b \<le> 255"
  using float_of_le [of r] float_of_le [of g] float_of_le [of b]
  unfolding luma_def by linarith

lemma luma_gray: "luma v v v = float_of v"
  by (simp add: luma_def algebra_simps)

lemma py_pow2_nat: "0 \<le> depth \<Longrightarrow> py_pow2 depth = of_int (2 ^ nat depth)"
  by (simp add: py_pow2_def)



text \<open>For a bit depth from 1 to 8, \<open>levels - 1\<close> is a positive integer of at most 255.\<close>

lemma py_pow2_minus_1:
  assumes "1 \<le> depth" "depth \<le> 8"
  obtains m :: int where "py_pow2 depth - 1 = of_int m" "1 \<le> m" "m \<le> 255"
    "m = 2 ^ nat depth - 1"
proof
  have n: "1 \<le> nat depth" "nat depth \<le> 8" using assms by linarith+
  show "py_pow2 depth - 1 = of_int (2 ^ nat depth - 1)"
    using assms by (simp add: py_pow2_def)
  have "(2::int) ^ 1 \<le> 2 ^ nat depth"
    using n by (intro power_increasing) simp_all
  then show "1 \<le> (2::int) ^ nat depth - 1" by simp
  have "(2::int) ^ nat depth \<le> 2 ^ 8"
    using n by (intro power_increasing) simp_all
  then show "(2::int) ^ nat depth - 1 \<le> 255" by simp
  show "(2::int) ^ nat depth - 1 = 2 ^ nat depth - 1" ..
qed

lemma quantize_step_range:
  assumes "levels - 1 = of_int m" "1 \<le> m"
  shows "0 \<le> quantize_step up levels (luma r g b)"
    and "quantize_step up levels (luma r g b) \<le> m"
proof -
  let ?x = "luma r g b / 255 * (levels - 1)"
  have m: "(0::rat) < of_int m" using assms by simp
  have "0 \<le> luma r g b / 255" using luma_nonneg [of r g b] by simp
  then have "0 \<le> ?x" using m assms by simp
  then have "of_int 0 \<le> ?x" by simp
  then show "0 \<le> quantize_step up levels (luma r g b)"
    unfolding quantize_step_def by (rule np_round_lower)
  have "luma r g b / 255 \<le> 1" using luma_le [of r g b] by simp
  then have "luma r g b / 255 * of_int m \<le> 1 * of_int m"
    using m by (intro mult_right_mono) simp_all
  then have "?x \<le> of_int m" using assms by simp
  then show "quantize_step up levels (luma r g b) \<le> m"
    unfolding quantize_step_def by (rule np_round_upper)
qed

text \<open>The byte of a step between 0 and \<open>levels - 1\<close>: an integer division, inside
  the range of a byte, so that the conversion neither wraps nor needs a clamp.\<close>

lemma astype_uint8_step:
  assumes "levels - 1 = of_int m" "1 \<le> m" "0 \<le> s" "s \<le> m"
  shows "uint (astype_uint8 (of_int s * (255 / (levels - 1)))) = (s * 255) div m"
    and "(s * 255) div m \<le> 255"
    and "0 \<le> (s * 255) div m"
proof -
  have v: "of_int s * (255 / (levels - 1)) = (of_int (s * 255) :: rat) / of_int m"
    using assms by simp
  have nonneg: "(0::rat) \<le> of_int (s * 255) / of_int m"
    using assms by simp
  have fl: "\<lfloor>(of_int (s * 255) :: rat) / of_int m\<rfloor> = (s * 255) div m"
    by (rule floor_divide_of_int_eq)
  show lo: "0 \<le> (s * 255) div m"
    using assms by (simp add: pos_imp_zdiv_nonneg_iff)
  have "s * 255 \<le> 255 * m" using assms by simp
  then have "(s * 255) div m \<le> (255 * m) div m" by (rule zdiv_mono1) (use assms in simp)
  then show hi: "(s * 255) div m \<le> 255" using assms by simp
  have "astype_uint8 (of_int s * (255 / (levels - 1))) = word_of_int ((s * 255) div m)"
    unfolding astype_uint8_def v using nonneg fl by simp
  moreover have "uint (word_of_int ((s * 255) div m) :: uint8) = (s * 255) div m"
    using lo hi by (simp add: uint_word_of_int)
  ultimately show "uint (astype_uint8 (of_int s * (255 / (levels - 1)))) = (s * 255) div m"
    by simp
qed

lemma quantize_pixel_div:
  assumes "1 \<le> depth" "depth \<le> 8"
  shows "uint (quantize_pixel up depth r g b) =
           (quantize_step up (py_pow2 depth) (luma r g b) * 255) div (2 ^ nat depth - 1)"
proof -
  obtain m :: int where m: "py_pow2 depth - 1 = of_int m" "1 \<le> m" "m = 2 ^ nat depth - 1"
    using assms by (rule py_pow2_minus_1)
  show ?thesis
    unfolding quantize_pixel_def quantize_value_def
    using astype_uint8_step(1) [OF m(1,2) quantize_step_range [OF m(1,2)]] m(3)
    by simp
qed

subsection \<open>The quantizer\<close>

lemma luma_spec: "luma r g b = spec_luma (unat r) (unat g) (unat b)"
  by (simp only: luma_def spec_luma_def float_of_def mult.commute)

lemma spec_step_f64_eq:
  assumes "0 \<le> depth"
  shows "spec_step_f64 up depth (unat r) (unat g) (unat b)
           = quantize_step up (py_pow2 depth) (luma r g b)"
proof -
  have "spec_levels depth = py_pow2 depth"
    using assms by (simp add: spec_levels_def py_pow2_def)
  then show ?thesis
    by (simp only: spec_step_f64_def quantize_step_def luma_spec np_round_half_even Let_def)
qed

text \<open>The pixel (0, 204, 68) at two bits: the exact value is 1.5, the lower side gives
  step 1 and the byte 85 (what \<^verbatim>\<open>float64\<close> gives), the upper side step 2 and the byte
  170 (what rounding half to even gives).\<close>

lemma tie_pixel:
  "quantize_pixel False 2 0 204 68 = 85 \<and> quantize_pixel True 2 0 204 68 = 170
   \<and> spec_step 2 0 204 68 = 2"
  by code_simp

text \<open>
  Claim C1, as stated: the output byte is the rescaled value rounded to the nearest
  integer and clamped.  It fails for the gray pixel 73 at three bits: the value
  \<open>73 / 255 * 7\<close> is about 2.004, far from a tie, the step is 2, the rescaled value is
  \<open>2 * 255 / 7\<close>, about 72.86; the conversion to a byte cuts the fraction off and
  gives 72, where rounding gives 73.
\<close>

theorem quantize_pixel_rounded_counterexample:
  "uint (quantize_pixel False 3 73 73 73) \<noteq> spec_quantize_rounded 3 73 73 73
   \<and> uint (quantize_pixel True 3 73 73 73) \<noteq> spec_quantize_rounded 3 73 73 73"
  by code_simp

text \<open>
  Claim C1, amended: for every pixel and every bit depth from 1 to 8, the output byte is
  \<open>round(luma / 255 * (levels - 1)) * 255 / (levels - 1)\<close> with its fraction cut off,
  where \<open>luma\<close> is the weighted sum of the specification and the inner rounding is
  half to even, except that on an exact tie the rounding error of \<^verbatim>\<open>float64\<close> gives
  the side; that value lies between 0 and 255, so nothing is clamped and the byte does
  not wrap.
\<close>

theorem quantize_pixel_truncates:
  assumes "1 \<le> depth" "depth \<le> 8"
  shows "uint (quantize_pixel up depth r g b)
           = spec_quantize_truncated up depth (unat r) (unat g) (unat b)
         \<and> 0 \<le> spec_quantize_truncated up depth (unat r) (unat g) (unat b)
         \<and> spec_quantize_truncated up depth (unat r) (unat g) (unat b) \<le> 255"
proof -
  obtain m :: int where m: "py_pow2 depth - 1 = of_int m" "1 \<le> m"
    using assms by (rule py_pow2_minus_1)
  let ?s = "quantize_step up (py_pow2 depth) (luma r g b)"
  note range = quantize_step_range [OF m, of up r g b]
  have lv: "spec_levels depth = py_pow2 depth"
    using assms by (simp add: spec_levels_def py_pow2_def)
  have "spec_quantize_truncated up depth (unat r) (unat g) (unat b)
          = \<lfloor>(of_int (?s * 255) :: rat) / of_int m\<rfloor>"
    using assms m by (simp add: spec_quantize_truncated_def spec_step_f64_eq lv)
  also have "\<dots> = (?s * 255) div m"
    by (rule floor_divide_of_int_eq)
  finally have t: "spec_quantize_truncated up depth (unat r) (unat g) (unat b)
                     = (?s * 255) div m" .
  have "uint (quantize_pixel up depth r g b) = (?s * 255) div m"
    unfolding quantize_pixel_def quantize_value_def
    by (rule astype_uint8_step(1) [OF m range])
  with t astype_uint8_step(2,3) [OF m range] show ?thesis by simp
qed

theorem quantize_pixel_truncates_witness:
  "(1::int) \<le> 3 \<and> (3::int) \<le> 8
   \<and> uint (quantize_pixel False 3 73 73 73) = spec_quantize_truncated False 3 73 73 73
   \<and> spec_quantize_truncated False 3 73 73 73 = 72
   \<and> uint (quantize_pixel False 2 0 204 68) = spec_quantize_truncated False 2 0 204 68
   \<and> spec_quantize_truncated False 2 0 204 68 = 85"
proof -
  have "spec_quantize_truncated False 3 73 73 73 = 72"
    "spec_quantize_truncated False 2 0 204 68 = 85"
    by code_simp+
  then show ?thesis
    using quantize_pixel_truncates [where depth = 3 and up = False and r = 73 and g = 73 and b = 73]
      quantize_pixel_truncates [where depth = 2 and up = False and r = 0 and g = 204 and b = 68]
    by simp
qed

lemma quantize_pixel_8: "uint (quantize_pixel up 8 r g b) = np_round up (luma r g b)"
proof -
  have "uint (quantize_pixel up 8 r g b)
          = (quantize_step up (py_pow2 8) (luma r g b) * 255) div (2 ^ nat 8 - 1)"
    by (rule quantize_pixel_div) simp_all
  then show ?thesis by (simp add: quantize_step_def py_pow2_def)
qed


lemma quantize_pixel_8_gray: "quantize_pixel up 8 v v v = v"
proof -
  have "uint (quantize_pixel up 8 v v v) = np_round up (of_int (uint v))"
    by (simp only: quantize_pixel_8 luma_gray float_of_uint)
  then have "uint (quantize_pixel up 8 v v v) = uint v"
    by (simp only: np_round_of_int)
  then show ?thesis by (rule word_uint_eqI)
qed

text \<open>
  Claim C5: at eight bits the quantizer leaves a gray pixel as it is, for every byte
  value and so for every output of an earlier pass at eight bits.
\<close>

theorem quantize_8_idempotent:
  "quantize_pixel up 8 v v v = v
   \<and> quantize_pixel up 8 (quantize_pixel up' 8 r g b) (quantize_pixel up' 8 r g b)
         (quantize_pixel up' 8 r g b)
       = quantize_pixel up' 8 r g b"
  by (simp only: quantize_pixel_8_gray)






text \<open>A level's byte rounds back to the level's own step.\<close>

lemma step_of_level:
  assumes m: "1 \<le> m" "m \<le> 127 \<or> m = 255" and s: "0 \<le> s"
  shows "np_round up (of_int ((s * 255) div m) / 255 * of_int m) = s"
proof (rule np_round_eqI)
  let ?q = "(s * 255) div m" and ?r = "(s * 255) mod m"
  have r: "0 \<le> ?r" "?r < m" using m by simp_all
  have "(of_int ?q :: rat) * of_int m + of_int ?r = of_int (?q * m + ?r)"
    by (simp only: of_int_add of_int_mult)
  also have "\<dots> = of_int (s * 255)"
    by (simp only: div_mult_mod_eq)
  also have "\<dots> = 255 * of_int s"
    by simp
  finally have A: "(of_int ?q :: rat) * of_int m = 255 * of_int s - of_int ?r"
    by linarith
  have r0: "(0::rat) \<le> of_int ?r" using r(1) by simp
  have r1: "2 * (of_int ?r :: rat) < 255"
  proof (cases "m = 255")
    case True
    then have "?r = 0" by simp
    then show ?thesis by simp
  next
    case False
    with m r have "2 * ?r < 255" by linarith
    then have "(of_int (2 * ?r) :: rat) < of_int 255" by (simp only: of_int_less_iff)
    then show ?thesis by simp
  qed
  have x: "(of_int ?q :: rat) / 255 * of_int m = (255 * of_int s - of_int ?r) / 255"
    using A by (simp add: field_simps)
  show "of_int s - 1 / 2 < (of_int ?q :: rat) / 255 * of_int m"
    unfolding x using r1 by (simp add: field_simps)
  show "(of_int ?q :: rat) / 255 * of_int m < of_int s + 1 / 2"
    unfolding x using r0 by (simp add: field_simps)
qed

lemma py_pow2_minus_1_cases:
  assumes "1 \<le> depth" "depth \<le> 8"
  obtains m :: int where "py_pow2 depth - 1 = of_int m" "1 \<le> m" "m \<le> 127 \<or> m = 255"
    "m = 2 ^ nat depth - 1"
proof
  have n: "1 \<le> nat depth" using assms by linarith
  show "py_pow2 depth - 1 = of_int (2 ^ nat depth - 1)"
    using assms by (simp add: py_pow2_def)
  have "(2::int) ^ 1 \<le> 2 ^ nat depth"
    using n by (intro power_increasing) simp_all
  then show "1 \<le> (2::int) ^ nat depth - 1" by simp
  show "(2::int) ^ nat depth - 1 \<le> 127 \<or> (2::int) ^ nat depth - 1 = 255"
  proof (cases "depth = 8")
    case True
    then show ?thesis by simp
  next
    case False
    with assms have "nat depth \<le> 7" by linarith
    then have "(2::int) ^ nat depth \<le> 2 ^ 7"
      by (intro power_increasing) simp_all
    then show ?thesis by simp
  qed
  show "(2::int) ^ nat depth - 1 = 2 ^ nat depth - 1" ..
qed

text \<open>
  Claim C10: for every bit depth from 1 to 8, the gray pixel made of an output byte is
  quantized to that same byte.
\<close>

theorem quantize_idempotent:
  assumes "1 \<le> depth" "depth \<le> 8"
  shows "quantize_pixel up' depth (quantize_pixel up depth r g b)
           (quantize_pixel up depth r g b) (quantize_pixel up depth r g b)
         = quantize_pixel up depth r g b"
proof -
  obtain m :: int where m: "py_pow2 depth - 1 = of_int m" "1 \<le> m"
      and m': "m \<le> 127 \<or> m = 255" "m = 2 ^ nat depth - 1"
    using assms by (rule py_pow2_minus_1_cases)
  let ?w = "quantize_pixel up depth r g b"
  let ?s = "quantize_step up (py_pow2 depth) (luma r g b)"
  note range = quantize_step_range [OF m, of up r g b]
  have w: "uint ?w = (?s * 255) div m"
    using quantize_pixel_div [OF assms, of up r g b] m'(2) by simp
  have "quantize_step up' (py_pow2 depth) (luma ?w ?w ?w)
          = np_round up' (of_int ((?s * 255) div m) / 255 * of_int m)"
    by (simp only: quantize_step_def luma_gray float_of_uint w m(1))
  also have "\<dots> = ?s"
    using m(2) m'(1) range(1) by (rule step_of_level)
  finally have "uint (quantize_pixel up' depth ?w ?w ?w) = (?s * 255) div m"
    using quantize_pixel_div [OF assms, of up' ?w ?w ?w] m'(2) by simp
  with w have "uint (quantize_pixel up' depth ?w ?w ?w) = uint ?w" by simp
  then show ?thesis by (rule word_uint_eqI)
qed

theorem quantize_idempotent_witness:
  "(1::int) \<le> 3 \<and> (3::int) \<le> 8 \<and> quantize_pixel False 3 100 150 200 = 145
   \<and> quantize_pixel True 3 145 145 145 = 145"
proof -
  have "quantize_pixel False 3 100 150 200 = 145" by code_simp
  then show ?thesis
    using quantize_idempotent [where depth = 3 and up = False and up' = True
        and r = 100 and g = 150 and b = 200]
    by simp
qed

text \<open>Where the levels are whole bytes (\<open>levels - 1\<close> divides 255, \<open>t\<close> apart), the
  output is the multiple of \<open>t\<close> nearest to the luma: no other multiple is closer.\<close>

lemma quant_error_grid:
  assumes m: "py_pow2 d2 - 1 = of_int m" "1 \<le> m" and t: "m * t = 255"
    and n: "uint (quantize_pixel up1 d1 r g b) = n * t"
  shows "quant_error up2 d2 r g b \<le> quant_error up1 d1 r g b"
proof -
  let ?x = "luma r g b"
  let ?s = "quantize_step up2 (py_pow2 d2) ?x"
  note range = quantize_step_range [OF m, of up2 r g b]
  have tpos: "0 < t"
  proof (rule ccontr)
    assume "\<not> 0 < t"
    then have "t \<le> 0" by simp
    with m(2) have "m * t \<le> 0" by (simp add: mult_nonneg_nonpos)
    with t show False by simp
  qed
  then have tq: "(0::rat) < of_int t" by simp
  have mt: "(of_int m :: rat) * of_int t = 255"
    using t by (metis of_int_mult of_int_numeral)
  have "?s * t * m = ?s * (m * t)"
    by (simp only: mult_ac)
  then have "?s * 255 = ?s * t * m"
    using t by simp
  then have "(?s * 255) div m = (?s * t * m) div m"
    by (rule arg_cong)
  also have "\<dots> = ?s * t" using m(2) by simp
  finally have out: "uint (quantize_pixel up2 d2 r g b) = ?s * t"
    unfolding quantize_pixel_def quantize_value_def
    using astype_uint8_step(1) [OF m range] by simp
  have arg: "?x / 255 * (py_pow2 d2 - 1) = ?x / of_int t"
  proof -
    have "(of_int m :: rat) / 255 = 1 / of_int t"
      using mt tq by (simp add: field_simps)
    then show ?thesis unfolding m(1) by (simp add: field_simps)
  qed
  have s: "?s = np_round up2 (?x / of_int t)"
    by (simp only: quantize_step_def arg)
  have "quant_error up2 d2 r g b = \<bar>of_int (?s * t) - ?x\<bar>"
    by (simp only: quant_error_def float_of_uint out)
  also have "\<dots> = of_int t * \<bar>of_int ?s - ?x / of_int t\<bar>"
  proof -
    have "of_int (?s * t) - ?x = of_int t * (of_int ?s - ?x / of_int t)"
      using tq by (simp add: field_simps)
    then show ?thesis using tq by (simp add: abs_mult)
  qed
  also have "\<dots> \<le> of_int t * \<bar>of_int n - ?x / of_int t\<bar>"
    unfolding s using tq np_round_closest [of up2 "?x / of_int t" n]
    by (intro mult_left_mono) simp_all
  also have "\<dots> = \<bar>of_int (n * t) - ?x\<bar>"
  proof -
    have "of_int (n * t) - ?x = of_int t * (of_int n - ?x / of_int t)"
      using tq by (simp add: field_simps)
    then show ?thesis using tq by (simp add: abs_mult)
  qed
  also have "\<dots> = quant_error up1 d1 r g b"
    by (simp only: quant_error_def float_of_uint n)
  finally show ?thesis .
qed

text \<open>
  Claim C4, as stated: more bits never give a larger error.  It fails for the gray pixel
  85 from two bits to three: two bits have the level 85 itself, error 0; three bits give
  step 2 and the byte 72, error 13.  Neither value is a tie.
\<close>

theorem quant_error_not_monotone_counterexample:
  "\<not> quant_error False 3 85 85 85 \<le> quant_error False 2 85 85 85
   \<and> \<not> quant_error True 3 85 85 85 \<le> quant_error True 2 85 85 85"
  by code_simp

text \<open>
  Claim C4, amended: for every pixel the error at eight bits is no greater than the
  error at any smaller bit depth from 1 to 7, and the error does not grow from one bit
  to two, from one bit to four, or from two bits to four; on whichever side the ties
  fall.
\<close>

theorem quant_error_monotone_on_byte_levels:
  assumes "(d1 = 1 \<and> d2 = 2) \<or> (d1 = 1 \<and> d2 = 4) \<or> (d1 = 2 \<and> d2 = 4)
           \<or> (1 \<le> d1 \<and> d1 < 8 \<and> d2 = 8)"
  shows "quant_error up2 d2 r g b \<le> quant_error up1 d1 r g b"
proof -
  have u1: "uint (quantize_pixel up1 1 r g b) = quantize_step up1 (py_pow2 1) (luma r g b) * 255"
    using quantize_pixel_div [of 1 up1 r g b] by simp
  have u2: "uint (quantize_pixel up1 2 r g b) = quantize_step up1 (py_pow2 2) (luma r g b) * 85"
    using quantize_pixel_div [of 2 up1 r g b] by simp
  have m2: "py_pow2 2 - 1 = of_int 3" "(1::int) \<le> 3" "(3::int) * 85 = 255"
    and m4: "py_pow2 4 - 1 = of_int 15" "(1::int) \<le> 15" "(15::int) * 17 = 255"
    and m8: "py_pow2 8 - 1 = of_int 255" "(1::int) \<le> 255" "(255::int) * 1 = 255"
    by (simp_all add: py_pow2_def)
  from assms consider "d1 = 1" "d2 = 2" | "d1 = 1" "d2 = 4" | "d1 = 2" "d2 = 4" | "d2 = 8"
    by blast
  then show ?thesis
  proof cases
    case 1
    have "uint (quantize_pixel up1 1 r g b) = (quantize_step up1 (py_pow2 1) (luma r g b) * 3) * 85"
      using u1 by simp
    with m2 show ?thesis unfolding 1 by (rule quant_error_grid)
  next
    case 2
    have "uint (quantize_pixel up1 1 r g b) = (quantize_step up1 (py_pow2 1) (luma r g b) * 15) * 17"
      using u1 by simp
    with m4 show ?thesis unfolding 2 by (rule quant_error_grid)
  next
    case 3
    have "uint (quantize_pixel up1 2 r g b) = (quantize_step up1 (py_pow2 2) (luma r g b) * 5) * 17"
      using u2 by simp
    with m4 show ?thesis unfolding 3 by (rule quant_error_grid)
  next
    case 4
    have "uint (quantize_pixel up1 d1 r g b) = uint (quantize_pixel up1 d1 r g b) * 1"
      by simp
    with m8 show ?thesis unfolding 4 by (rule quant_error_grid)
  qed
qed

theorem quant_error_monotone_on_byte_levels_witness:
  "((2::int) = 1 \<and> (8::int) = 2 \<or> (2::int) = 1 \<and> (8::int) = 4 \<or> (2::int) = 2 \<and> (8::int) = 4
      \<or> (1::int) \<le> 2 \<and> (2::int) < 8 \<and> (8::int) = 8)
   \<and> quant_error False 8 100 150 200 \<le> quant_error True 2 100 150 200"
  using quant_error_monotone_on_byte_levels [where ?d1.0 = 2 and ?d2.0 = 8 and ?up1.0 = True
      and ?up2.0 = False and r = 100 and g = 150 and b = 200]
  by simp

subsection \<open>Unpacking\<close>

lemma pixel_index_less:
  assumes "r < (h::nat)" "p < w"
  shows "r * w + p < h * w"
proof -
  have "r * w + p < r * w + w" using assms(2) by simp
  also have "\<dots> = Suc r * w" by simp
  also have "\<dots> \<le> h * w" using assms(1) by (intro mult_le_mono1) simp
  finally show ?thesis .
qed

lemma entry_index_less:
  assumes "q < (n::nat)" "j < c"
  shows "q * c + j < n * c"
  using assms by (rule pixel_index_less)









subsection \<open>From the pixel to the array\<close>

text \<open>The array and the pixel: on an array of \<open>h\<close> rows of \<open>w\<close> pixels of three bytes,
  entry \<open>i\<close> of the result is the quantized pixel \<open>i\<close>.\<close>

lemma grayscale_quantize_pixels:
  assumes "shape arr = [h, w, 3]" and "py_pow2 depth \<noteq> 1"
  shows "\<exists>d. grayscale_quantize ups depth arr = Inr \<lparr>shape = [h, w], data = d\<rparr>
           \<and> length d = h * w
           \<and> (\<forall>i<h * w. d ! i = quantize_pixel (ups i) depth (data arr ! (3 * i))
                  (data arr ! (3 * i + 1)) (data arr ! (3 * i + 2)))"
proof -
  let ?rgb = "slice_last arr 3"
  have sh: "shape ?rgb = [h, w, 3]"
    using assms(1) by (simp add: slice_last_def Let_def)
  have nth: "data ?rgb ! (3 * i + j) = data arr ! (3 * i + j)" if "i < h * w" "j < 3" for i j
  proof -
    have "i * 3 + j < h * w * 3" using that by (rule entry_index_less)
    then have "data ?rgb ! (i * 3 + j) = data arr ! (i * 3 + j)"
      using assms(1) by (simp add: slice_last_def Let_def add.commute)
    then show ?thesis
      by (simp only: mult.commute [of 3 i])
  qed
  let ?d = "map (\<lambda>i. quantize_pixel (ups i) depth (data ?rgb ! (3 * i))
                 (data ?rgb ! (3 * i + 1)) (data ?rgb ! (3 * i + 2))) [0..<h * w]"
  have "grayscale_quantize ups depth arr = Inr \<lparr>shape = [h, w], data = ?d\<rparr>"
    using assms(2) sh by (simp add: grayscale_quantize_def Let_def)
  moreover have "length ?d = h * w" by simp
  moreover have "?d ! i = quantize_pixel (ups i) depth (data arr ! (3 * i))
                  (data arr ! (3 * i + 1)) (data arr ! (3 * i + 2))" if "i < h * w" for i
    using that nth [OF that, of 0] nth [OF that, of 1] nth [OF that, of 2] by simp
  ultimately show ?thesis by blast
qed

subsection \<open>The bit depth is not checked\<close>

lemma slice_last_3_axis:
  assumes "3 \<le> last (shape arr)"
  shows "last (shape (slice_last arr 3)) = 3"
  using assms by (simp add: slice_last_def Let_def min_def)

lemma grayscale_quantize_zero:
  assumes "3 \<le> last (shape arr)"
  shows "grayscale_quantize ups 0 arr = Inl ZeroDivisionError"
  using slice_last_3_axis [OF assms]
  by (simp add: grayscale_quantize_def Let_def py_pow2_def)

lemma py_pow2_gt_1:
  assumes "1 \<le> depth"
  shows "1 < py_pow2 depth"
proof -
  have "1 \<le> nat depth" using assms by linarith
  then have "(2::rat) ^ 1 \<le> 2 ^ nat depth"
    by (intro power_increasing) simp_all
  then show ?thesis using assms by (simp add: py_pow2_def)
qed

lemma grayscale_quantize_returns:
  assumes "3 \<le> last (shape arr)" "1 \<le> depth"
  shows "\<exists>out. grayscale_quantize ups depth arr = Inr out"
proof -
  have "py_pow2 depth - 1 \<noteq> 0" using py_pow2_gt_1 [OF assms(2)] by simp
  then show ?thesis
    using slice_last_3_axis [OF assms(1)]
    by (simp add: grayscale_quantize_def Let_def)
qed

text \<open>
  Claim C7, as stated: a bit depth outside 1 to 8 fails with an error of its own.  The
  method has no such check and no such error: at nine bits it returns an array.
\<close>

theorem bit_depth_unchecked_counterexample:
  "grayscale_quantize (\<lambda>i. False) 9 \<lparr>shape = [1, 1, 3], data = [100, 150, 200]\<rparr>
     = Inr \<lparr>shape = [1, 1], data = [140]\<rparr>"
proof -
  have "quantize_pixel False 9 100 150 200 = 140"
    by code_simp
  moreover have "grayscale_quantize (\<lambda>i. False) 9
       \<lparr>shape = [1, 1, 3], data = [100, 150, 200]\<rparr>
     = Inr \<lparr>shape = [1, 1], data = [quantize_pixel False 9 100 150 200]\<rparr>"
    by (simp add: grayscale_quantize_def slice_last_def Let_def py_pow2_def)
  ultimately show ?thesis by simp
qed

text \<open>
  Claim C7, amended: the bit depth is not checked.  For an array with three channels,
  a bit depth of 0 fails with \<^verbatim>\<open>ZeroDivisionError\<close>, and every bit depth from 1 to 62,
  inside 1 to 8 or above it, gives an array.
\<close>

theorem bit_depth_unchecked:
  assumes "3 \<le> last (shape arr)"
  shows "grayscale_quantize ups 0 arr = Inl ZeroDivisionError
    \<and> (\<forall>depth. 1 \<le> depth \<and> depth \<le> 62 \<longrightarrow> (\<exists>out. grayscale_quantize ups depth arr = Inr out))"
  using grayscale_quantize_zero [OF assms] grayscale_quantize_returns [OF assms] by simp

theorem bit_depth_unchecked_witness:
  "3 \<le> last (shape \<lparr>shape = [1, 1, 3], data = [100, 150, 200 :: uint8]\<rparr>)
   \<and> grayscale_quantize (\<lambda>i. False) 0 \<lparr>shape = [1, 1, 3], data = [100, 150, 200]\<rparr>
       = Inl ZeroDivisionError
   \<and> (\<exists>out. grayscale_quantize (\<lambda>i. False) 9
                \<lparr>shape = [1, 1, 3], data = [100, 150, 200]\<rparr> = Inr out)
   \<and> (\<exists>out. grayscale_quantize (\<lambda>i. False) 5
                \<lparr>shape = [1, 1, 3], data = [100, 150, 200]\<rparr> = Inr out)"
  using bit_depth_unchecked [where arr = "\<lparr>shape = [1, 1, 3], data = [100, 150, 200]\<rparr>"
      and ups = "\<lambda>i. False"]
  by simp

subsection \<open>Loading an image\<close>

text \<open>
  Claim C9: when the decoder gives a null image, loading returns with one warning
  added and every other field of the state as it was: the original image, the gray
  image, the file path, the bit depth and both labels.
\<close>

theorem load_image_decode_failure:
  assumes "(if path = [] then chosen else path) \<noteq> []"
    and "decode (if path = [] then chosen else path) = None"
  shows "\<exists>st'. load_image ups decode chosen path st = Inr st'
    \<and> original_image st' = original_image st
    \<and> gray_image st' = gray_image st
    \<and> file_path st' = file_path st
    \<and> bits st' = bits st
    \<and> image_label st' = image_label st
    \<and> gray_label st' = gray_label st
    \<and> warnings st' = warnings st @ [''Failed to load image.'']"
  using assms by (simp add: load_image_def Let_def)

theorem load_image_decode_failure_witness:
  "(if ''broken.png'' = [] then [] else ''broken.png'') \<noteq> []
   \<and> (\<lambda>p. None :: qimage option) (if ''broken.png'' = [] then [] else ''broken.png'') = None
   \<and> (\<exists>st'. load_image (\<lambda>i. False) (\<lambda>p. None) [] ''broken.png'' loaded_state = Inr st'
        \<and> original_image st' = original_image loaded_state
        \<and> gray_image st' = gray_image loaded_state
        \<and> file_path st' = Some ''good.png''
        \<and> bits st' = 8
        \<and> warnings st' = [''Failed to load image.''])"
proof -
  have "file_path loaded_state = Some ''good.png''" "bits loaded_state = 8"
    "warnings loaded_state = []"
    by (simp_all add: loaded_state_def)
  then show ?thesis
    using load_image_decode_failure [where path = "''broken.png''" and chosen = "[]"
        and decode = "\<lambda>p. None" and st = loaded_state and ups = "\<lambda>i. False"]
    by auto
qed

text \<open>Loading an image of one pixel into the initial state gives \<open>loaded_state\<close>.\<close>

lemma load_good_image:
  "load_image ups
     (\<lambda>p. Some \<lparr>img_width = 1, img_height = 1, img_bytesPerLine = 4,
                    img_format = Format_RGB32, img_bits = [10, 20, 30, 255]\<rparr>)
     [] ''good.png'' initial_state
   = Inr loaded_state"
proof -
  let ?img = "\<lparr>img_width = 1, img_height = 1, img_bytesPerLine = 4,
                 img_format = Format_RGB32, img_bits = [10, 20, 30, 255 :: uint8]\<rparr>"
  have px: "quantize_pixel side 8 10 20 30 = 18" for side
  proof -
    have "quantize_pixel True 8 10 20 30 = 18" "quantize_pixel False 8 10 20 30 = 18"
      by code_simp+
    then show ?thesis by (cases side) simp_all
  qed
  have u: "unpack ?img = Inr \<lparr>shape = [1, 1, 3], data = [10, 20, 30]\<rparr>"
    by code_simp
  have q: "grayscale_quantize ups 8 \<lparr>shape = [1, 1, 3], data = [10, 20, 30]\<rparr>
             = Inr \<lparr>shape = [1, 1], data = [18]\<rparr>"
    by (simp add: grayscale_quantize_def slice_last_def Let_def py_pow2_def px)
  show ?thesis
    by (simp add: load_image_def update_grayscale_def qimage_bits_def isNull_def Let_def
        initial_state_def loaded_state_def u q del: One_nat_def)
qed

subsection \<open>An image of width 0 or height 0\<close>

text \<open>
  Claim C8, as stated: for width 0 or height 0 unpacking succeeds with an empty output.
  An image of width 0 is the null image: \<^verbatim>\<open>img.bits()\<close> is \<^verbatim>\<open>None\<close>, and
  \<^verbatim>\<open>update_grayscale\<close> fails on line 142 before any array exists, although the
  stride and the length of the memory are as the claim asks.
\<close>

theorem zero_size_image_counterexample:
  "img_width empty_image = 0
   \<and> img_height empty_image * img_bytesPerLine empty_image \<le> length (img_bits empty_image)
   \<and> img_width empty_image * channels_of (img_format empty_image)
       \<le> img_bytesPerLine empty_image
   \<and> update_grayscale (\<lambda>i. False) (loaded_state\<lparr>original_image := Some empty_image\<rparr>)
       = Inl AttributeError"
  by (simp add: update_grayscale_def qimage_bits_def isNull_def empty_image_def)

text \<open>
  Claim C8, amended: an image of width 0 or height 0 is the null image.  Loading it ends
  with the warning and leaves the state as it was, so that its pixels are never
  unpacked; and \<^verbatim>\<open>update_grayscale\<close> on such an image fails with
  \<^verbatim>\<open>AttributeError\<close>, it gives no empty output.
\<close>

theorem zero_size_image_is_null:
  assumes "img_width img = 0 \<or> img_height img = 0"
    and "path \<noteq> []" and "decode path = Some img"
  shows "load_image ups decode chosen path st
           = Inr (st\<lparr>warnings := warnings st @ [''Failed to load image.'']\<rparr>)
    \<and> update_grayscale ups (st\<lparr>original_image := Some img\<rparr>) = Inl AttributeError"
  using assms
  by (simp add: load_image_def update_grayscale_def qimage_bits_def isNull_def Let_def)

theorem zero_size_image_is_null_witness:
  "(img_width empty_image = 0 \<or> img_height empty_image = 0)
   \<and> ''empty.png'' \<noteq> []
   \<and> (\<lambda>p. Some empty_image) ''empty.png'' = Some empty_image
   \<and> load_image (\<lambda>i. False) (\<lambda>p. Some empty_image) [] ''empty.png'' loaded_state
       = Inr (loaded_state\<lparr>warnings := warnings loaded_state @ [''Failed to load image.'']\<rparr>)
   \<and> update_grayscale (\<lambda>i. False) (loaded_state\<lparr>original_image := Some empty_image\<rparr>)
       = Inl AttributeError"
proof -
  have "img_width empty_image = 0"
    by (simp add: empty_image_def)
  then show ?thesis
    using zero_size_image_is_null [where img = empty_image and path = "''empty.png''"
        and decode = "\<lambda>p. Some empty_image" and ups = "\<lambda>i. False" and chosen = "[]"
        and st = loaded_state]
    by simp
qed

end
